theory Spec2Isabelle
  imports Main "HOL-Library.Word"
begin

unbundle bit_operations_syntax

section \<open>Machine state of the LC-3 virtual machine (lc3.c)\<close>

text \<open>
  The C program keeps its state in two file-scope arrays, \<^verbatim>\<open>uint16_t memory[1 << 16]\<close>
  and \<^verbatim>\<open>uint16_t reg[R_COUNT]\<close>, in the local \<^verbatim>\<open>running\<close> of \<^verbatim>\<open>main\<close> (handed to
  \<^verbatim>\<open>trapInstr\<close> by pointer) and in the host terminal. The record below collects them.
  Memory is indexed by a 16-bit address, so every index is in range. The register file
  is indexed by a natural number; every index the code uses is either a 3-bit field
  (\<^verbatim>\<open>& 0x7\<close>) or one of the constants \<^verbatim>\<open>R_PC = 8\<close>, \<^verbatim>\<open>R_COND = 9\<close>, hence below
  \<^verbatim>\<open>R_COUNT = 10\<close>.

  The host is a script: \<open>kbd\<close> holds the bytes that \<^verbatim>\<open>getchar\<close> will deliver (after the
  last one it returns \<^verbatim>\<open>EOF\<close>), \<open>probe\<close> holds the answers that the coming calls of
  \<^verbatim>\<open>check_key\<close> (a zero-timeout \<^verbatim>\<open>select\<close> on standard input) will give (after the last
  one: nothing pending), and \<open>out\<close> is the sequence of bytes written to standard output.

  The string traps read through a pointer that can leave the array \<^verbatim>\<open>memory\<close> at its upper
  end. What the process holds there is not fixed by the source (the linker may place the
  array \<^verbatim>\<open>reg\<close> or any other object behind \<^verbatim>\<open>memory\<close>), so it is an input of the model:
  \<open>behind\<close> holds the 16-bit words that follow the last element of \<^verbatim>\<open>memory\<close>, up to
  the end of the mapped storage. The model takes them as fixed while one scan runs.
\<close>

type_synonym word16 = "16 word"
type_synonym byte = "8 word"

record machine =
  memory :: "word16 \<Rightarrow> word16"
  reg :: "nat \<Rightarrow> word16"
  running :: bool
  kbd :: "byte list"
  probe :: "bool list"
  out :: "byte list"
  behind :: "word16 list"

datatype fault = Abort | OutOfBounds

definition R_R0 :: nat where "R_R0 = 0"
definition R_R7 :: nat where "R_R7 = 7"
definition R_PC :: nat where "R_PC = 8"
definition R_COND :: nat where "R_COND = 9"

definition FL_POS :: word16 where "FL_POS = 1"
definition FL_ZRO :: word16 where "FL_ZRO = 2"
definition FL_NEG :: word16 where "FL_NEG = 4"

definition MR_KBSR :: word16 where "MR_KBSR = 0xFE00"
definition MR_KBDR :: word16 where "MR_KBDR = 0xFE02"

definition MEMORY_MAX :: nat where "MEMORY_MAX = 65536"

subsection \<open>Host calls\<close>

text \<open>\<^verbatim>\<open>getchar()\<close>: the next byte as a non-negative \<^verbatim>\<open>int\<close>, or \<^verbatim>\<open>EOF = -1\<close>.\<close>

definition getchar :: "machine \<Rightarrow> int \<times> machine" where
  "getchar s = (case kbd s of
      [] \<Rightarrow> (- 1, s)
    | b # bs \<Rightarrow> (uint b, s\<lparr>kbd := bs\<rparr>))"

text \<open>\<^verbatim>\<open>check_key()\<close>: whether \<^verbatim>\<open>select\<close> reports standard input as readable.\<close>

definition check_key :: "machine \<Rightarrow> bool \<times> machine" where
  "check_key s = (case probe s of
      [] \<Rightarrow> (False, s)
    | p # ps \<Rightarrow> (p, s\<lparr>probe := ps\<rparr>))"

text \<open>\<^verbatim>\<open>putc(c, stdout)\<close> writes \<^verbatim>\<open>(unsigned char) c\<close>.\<close>

definition putc :: "byte \<Rightarrow> machine \<Rightarrow> machine" where
  "putc c s = s\<lparr>out := out s @ [c]\<rparr>"

subsection \<open>Utilities\<close>

definition sign_extend :: "word16 \<Rightarrow> nat \<Rightarrow> word16" where
  "sign_extend x bit_count =
     (if drop_bit (bit_count - 1) x AND 1 \<noteq> 0
      then x OR push_bit bit_count 0xFFFF
      else x)"

definition update_flags :: "nat \<Rightarrow> machine \<Rightarrow> machine" where
  "update_flags r s =
     (if reg s r = 0 then s\<lparr>reg := (reg s)(R_COND := FL_ZRO)\<rparr>
      else if drop_bit 15 (reg s r) \<noteq> 0 then s\<lparr>reg := (reg s)(R_COND := FL_NEG)\<rparr>
      else s\<lparr>reg := (reg s)(R_COND := FL_POS)\<rparr>)"

definition swap16 :: "word16 \<Rightarrow> word16" where
  "swap16 x = push_bit 8 x OR drop_bit 8 x"

subsection \<open>Memory access\<close>

definition mem_write :: "word16 \<Rightarrow> word16 \<Rightarrow> machine \<Rightarrow> machine" where
  "mem_write address val s = s\<lparr>memory := (memory s)(address := val)\<rparr>"

text \<open>
  \<^verbatim>\<open>mem_read\<close>: a poll of the keyboard status register first asks \<^verbatim>\<open>check_key\<close>; with a
  key pending it stores \<^verbatim>\<open>1 << 15\<close> at \<^verbatim>\<open>MR_KBSR\<close> and \<^verbatim>\<open>getchar()\<close>, converted to
  \<^verbatim>\<open>uint16_t\<close>, at \<^verbatim>\<open>MR_KBDR\<close>; otherwise it stores 0 at \<^verbatim>\<open>MR_KBSR\<close>. The result is the
  word then found at the address.
\<close>

definition mem_read :: "word16 \<Rightarrow> machine \<Rightarrow> word16 \<times> machine" where
  "mem_read address s =
     (if address = MR_KBSR then
        (let (key, s1) = check_key s;
             s3 = (if key then
                     (let s2 = s1\<lparr>memory := (memory s1)(MR_KBSR := push_bit 15 1)\<rparr>;
                          (c, s2') = getchar s2
                      in s2'\<lparr>memory := (memory s2')(MR_KBDR := word_of_int c)\<rparr>)
                   else s1\<lparr>memory := (memory s1)(MR_KBSR := 0)\<rparr>)
         in (memory s3 address, s3))
      else (memory s address, s))"

subsection \<open>Opcode handlers\<close>

text \<open>
  Each handler receives the instruction word; the program counter has already been
  incremented by the fetch. Register numbers are the 3-bit fields of the word.
\<close>

definition addInstr :: "word16 \<Rightarrow> machine \<Rightarrow> machine" where
  "addInstr instr s =
     (let r0 = unat (drop_bit 9 instr AND 0x7);
          r1 = unat (drop_bit 6 instr AND 0x7);
          imm_flag = drop_bit 5 instr AND 0x1
      in if imm_flag \<noteq> 0 then
           (let imm5 = sign_extend (instr AND 0x1F) 5
            in update_flags r0 (s\<lparr>reg := (reg s)(r0 := reg s r1 + imm5)\<rparr>))
         else
           (let r2 = unat (instr AND 0x7)
            in update_flags r0 (s\<lparr>reg := (reg s)(r0 := reg s r1 + reg s r2)\<rparr>)))"

definition ldiInstr :: "word16 \<Rightarrow> machine \<Rightarrow> machine" where
  "ldiInstr instr s =
     (let r0 = unat (drop_bit 9 instr AND 0x7);
          pc_offset = sign_extend (instr AND 0x1FF) 9;
          (a, s1) = mem_read (reg s R_PC + pc_offset) s;
          (v, s2) = mem_read a s1
      in update_flags r0 (s2\<lparr>reg := (reg s2)(r0 := v)\<rparr>))"

definition andInstr :: "word16 \<Rightarrow> machine \<Rightarrow> machine" where
  "andInstr instr s =
     (let r0 = unat (drop_bit 9 instr AND 0x7);
          r1 = unat (drop_bit 6 instr AND 0x7);
          imm_flag = drop_bit 5 instr AND 0x1
      in if imm_flag \<noteq> 0 then
           (let imm5 = sign_extend (instr AND 0x1F) 5
            in update_flags r0 (s\<lparr>reg := (reg s)(r0 := reg s r1 AND imm5)\<rparr>))
         else
           (let r2 = unat (instr AND 0x7)
            in update_flags r0 (s\<lparr>reg := (reg s)(r0 := reg s r1 AND reg s r2)\<rparr>)))"

definition notInstr :: "word16 \<Rightarrow> machine \<Rightarrow> machine" where
  "notInstr instr s =
     (let r0 = unat (drop_bit 9 instr AND 0x7);
          r1 = unat (drop_bit 6 instr AND 0x7)
      in update_flags r0 (s\<lparr>reg := (reg s)(r0 := NOT (reg s r1))\<rparr>))"

definition brInstr :: "word16 \<Rightarrow> machine \<Rightarrow> machine" where
  "brInstr instr s =
     (let pc_offset = sign_extend (instr AND 0x1FF) 9;
          cond_flag = drop_bit 9 instr AND 0x7
      in if cond_flag AND reg s R_COND \<noteq> 0
         then s\<lparr>reg := (reg s)(R_PC := reg s R_PC + pc_offset)\<rparr>
         else s)"

definition jmpInstr :: "word16 \<Rightarrow> machine \<Rightarrow> machine" where
  "jmpInstr instr s =
     (let r1 = unat (drop_bit 6 instr AND 0x7)
      in s\<lparr>reg := (reg s)(R_PC := reg s r1)\<rparr>)"

text \<open>\<^verbatim>\<open>jsrInstr\<close> stores the program counter in R7 before it reads the base register.\<close>

definition jsrInstr :: "word16 \<Rightarrow> machine \<Rightarrow> machine" where
  "jsrInstr instr s =
     (let long_flag = drop_bit 11 instr AND 1;
          s1 = s\<lparr>reg := (reg s)(R_R7 := reg s R_PC)\<rparr>
      in if long_flag \<noteq> 0 then
           (let long_pc_offset = sign_extend (instr AND 0x7FF) 11
            in s1\<lparr>reg := (reg s1)(R_PC := reg s1 R_PC + long_pc_offset)\<rparr>)
         else
           (let r1 = unat (drop_bit 6 instr AND 0x7)
            in s1\<lparr>reg := (reg s1)(R_PC := reg s1 r1)\<rparr>))"

definition ldInstr :: "word16 \<Rightarrow> machine \<Rightarrow> machine" where
  "ldInstr instr s =
     (let r0 = unat (drop_bit 9 instr AND 0x7);
          pc_offset = sign_extend (instr AND 0x1FF) 9;
          (v, s1) = mem_read (reg s R_PC + pc_offset) s
      in update_flags r0 (s1\<lparr>reg := (reg s1)(r0 := v)\<rparr>))"

definition ldrInstr :: "word16 \<Rightarrow> machine \<Rightarrow> machine" where
  "ldrInstr instr s =
     (let r0 = unat (drop_bit 9 instr AND 0x7);
          r1 = unat (drop_bit 6 instr AND 0x7);
          offset = sign_extend (instr AND 0x3F) 6;
          (v, s1) = mem_read (reg s r1 + offset) s
      in update_flags r0 (s1\<lparr>reg := (reg s1)(r0 := v)\<rparr>))"

definition leaInstr :: "word16 \<Rightarrow> machine \<Rightarrow> machine" where
  "leaInstr instr s =
     (let r0 = unat (drop_bit 9 instr AND 0x7);
          pc_offset = sign_extend (instr AND 0x1FF) 9
      in update_flags r0 (s\<lparr>reg := (reg s)(r0 := reg s R_PC + pc_offset)\<rparr>))"

definition stInstr :: "word16 \<Rightarrow> machine \<Rightarrow> machine" where
  "stInstr instr s =
     (let r0 = unat (drop_bit 9 instr AND 0x7);
          pc_offset = sign_extend (instr AND 0x1FF) 9
      in mem_write (reg s R_PC + pc_offset) (reg s r0) s)"

definition stiInstr :: "word16 \<Rightarrow> machine \<Rightarrow> machine" where
  "stiInstr instr s =
     (let r0 = unat (drop_bit 9 instr AND 0x7);
          pc_offset = sign_extend (instr AND 0x1FF) 9;
          (a, s1) = mem_read (reg s R_PC + pc_offset) s
      in mem_write a (reg s1 r0) s1)"

definition strInstr :: "word16 \<Rightarrow> machine \<Rightarrow> machine" where
  "strInstr instr s =
     (let r0 = unat (drop_bit 9 instr AND 0x7);
          r1 = unat (drop_bit 6 instr AND 0x7);
          offset = sign_extend (instr AND 0x3F) 6
      in mem_write (reg s r1 + offset) (reg s r0) s)"

subsection \<open>Trap service routines\<close>

text \<open>
  \<^verbatim>\<open>TRAP_PUTS\<close> and \<^verbatim>\<open>TRAP_PUTSP\<close> walk a pointer \<^verbatim>\<open>uint16_t* c = memory + reg[R_R0]\<close>
  upwards until \<^verbatim>\<open>*c\<close> is zero. The pointer is not a 16-bit index: it does not wrap, and
  the loops have no bound, so past the last element of \<^verbatim>\<open>memory\<close> they read on through
  whatever follows the array. The model keeps \<open>c\<close> as an offset from \<^verbatim>\<open>memory\<close>.
  \<open>deref\<close> is the read \<^verbatim>\<open>*c\<close>: an element of \<^verbatim>\<open>memory\<close> below \<^verbatim>\<open>MEMORY_MAX\<close>, a word of
  \<open>behind\<close> above it, and nothing once the mapped storage has ended, where the read is a
  segmentation fault that ends the process (the fault \<open>OutOfBounds\<close>).
\<close>

definition deref :: "machine \<Rightarrow> nat \<Rightarrow> word16 option" where
  "deref s c =
     (if c < MEMORY_MAX then Some (memory s (of_nat c))
      else if c - MEMORY_MAX < length (behind s) then Some (behind s ! (c - MEMORY_MAX))
      else None)"

function puts_loop :: "nat \<Rightarrow> machine \<Rightarrow> fault + machine" where
  "puts_loop c s =
     (case deref s c of
        None \<Rightarrow> Inl OutOfBounds
      | Some w \<Rightarrow>
          if w = 0 then Inr s
          else puts_loop (c + 1) (putc (ucast w) s))"
  by pat_completeness auto
termination
  by (relation "measure (\<lambda>(c, s). MEMORY_MAX + length (behind s) - c)")
    (auto simp add: deref_def putc_def split: if_splits)

declare puts_loop.simps [simp del]

function putsp_loop :: "nat \<Rightarrow> machine \<Rightarrow> fault + machine" where
  "putsp_loop c s =
     (case deref s c of
        None \<Rightarrow> Inl OutOfBounds
      | Some w \<Rightarrow>
          if w = 0 then Inr s
          else
            (let char1 = (ucast (w AND 0xFF) :: byte);
                 s1 = putc char1 s;
                 char2 = (ucast (drop_bit 8 w) :: byte);
                 s2 = (if char2 \<noteq> 0 then putc char2 s1 else s1)
             in putsp_loop (c + 1) s2))"
  by pat_completeness auto
termination
  by (relation "measure (\<lambda>(c, s). MEMORY_MAX + length (behind s) - c)")
    (auto simp add: deref_def putc_def split: if_splits)

declare putsp_loop.simps [simp del]

text \<open>\<^verbatim>\<open>printf\<close> and \<^verbatim>\<open>puts\<close> of a string literal: its bytes go to standard output.\<close>

definition print_string :: "string \<Rightarrow> machine \<Rightarrow> machine" where
  "print_string str s = s\<lparr>out := out s @ map of_char str\<rparr>"

definition TRAP_GETC :: word16 where "TRAP_GETC = 0x20"
definition TRAP_OUT :: word16 where "TRAP_OUT = 0x21"
definition TRAP_PUTS :: word16 where "TRAP_PUTS = 0x22"
definition TRAP_IN :: word16 where "TRAP_IN = 0x23"
definition TRAP_PUTSP :: word16 where "TRAP_PUTSP = 0x24"
definition TRAP_HALT :: word16 where "TRAP_HALT = 0x25"

text \<open>
  \<^verbatim>\<open>trapInstr\<close> copies the program counter to R7 and then switches on the low byte of the
  instruction; a vector without a case falls out of the switch. \<^verbatim>\<open>TRAP_GETC\<close> converts
  the \<^verbatim>\<open>int\<close> that \<^verbatim>\<open>getchar\<close> returns to \<^verbatim>\<open>uint16_t\<close>. \<^verbatim>\<open>TRAP_IN\<close> goes through a \<^verbatim>\<open>char\<close>,
  which is signed on the program's platforms, so the conversion to \<^verbatim>\<open>uint16_t\<close> extends the
  sign. \<^verbatim>\<open>puts("HALT")\<close> appends a newline. \<^verbatim>\<open>fflush\<close> changes nothing in the model, where
  written bytes reach \<open>out\<close> at once.
\<close>

definition trapInstr :: "word16 \<Rightarrow> machine \<Rightarrow> fault + machine" where
  "trapInstr instr s0 =
     (let s = s0\<lparr>reg := (reg s0)(R_R7 := reg s0 R_PC)\<rparr>;
          vect = instr AND 0xFF
      in if vect = TRAP_GETC then
           (let (c, s1) = getchar s
            in Inr (update_flags R_R0 (s1\<lparr>reg := (reg s1)(R_R0 := word_of_int c)\<rparr>)))
         else if vect = TRAP_OUT then
           Inr (putc (ucast (reg s R_R0)) s)
         else if vect = TRAP_PUTS then
           puts_loop (unat (reg s R_R0)) s
         else if vect = TRAP_IN then
           (let s1 = print_string ''Enter a character: '' s;
                (i, s2) = getchar s1;
                c = (word_of_int i :: byte);
                s3 = putc c s2
            in Inr (update_flags R_R0 (s3\<lparr>reg := (reg s3)(R_R0 := scast c)\<rparr>)))
         else if vect = TRAP_PUTSP then
           putsp_loop (unat (reg s R_R0)) s
         else if vect = TRAP_HALT then
           Inr ((print_string (''HALT'' @ [CHR 0x0A]) s)\<lparr>running := False\<rparr>)
         else Inr s)"

subsection \<open>Run loop\<close>

definition OP_BR :: word16 where "OP_BR = 0"
definition OP_ADD :: word16 where "OP_ADD = 1"
definition OP_LD :: word16 where "OP_LD = 2"
definition OP_ST :: word16 where "OP_ST = 3"
definition OP_JSR :: word16 where "OP_JSR = 4"
definition OP_AND :: word16 where "OP_AND = 5"
definition OP_LDR :: word16 where "OP_LDR = 6"
definition OP_STR :: word16 where "OP_STR = 7"
definition OP_RTI :: word16 where "OP_RTI = 8"
definition OP_NOT :: word16 where "OP_NOT = 9"
definition OP_LDI :: word16 where "OP_LDI = 10"
definition OP_STI :: word16 where "OP_STI = 11"
definition OP_JMP :: word16 where "OP_JMP = 12"
definition OP_RES :: word16 where "OP_RES = 13"
definition OP_LEA :: word16 where "OP_LEA = 14"
definition OP_TRAP :: word16 where "OP_TRAP = 15"

text \<open>The \<^verbatim>\<open>switch (op)\<close> of \<^verbatim>\<open>main\<close>, in its order; \<^verbatim>\<open>abort()\<close> is the fault \<open>Abort\<close>.\<close>

definition execute :: "word16 \<Rightarrow> machine \<Rightarrow> fault + machine" where
  "execute instr s =
     (let op = drop_bit 12 instr
      in if op = OP_ADD then Inr (addInstr instr s)
         else if op = OP_AND then Inr (andInstr instr s)
         else if op = OP_NOT then Inr (notInstr instr s)
         else if op = OP_BR then Inr (brInstr instr s)
         else if op = OP_JMP then Inr (jmpInstr instr s)
         else if op = OP_JSR then Inr (jsrInstr instr s)
         else if op = OP_LD then Inr (ldInstr instr s)
         else if op = OP_LDI then Inr (ldiInstr instr s)
         else if op = OP_LDR then Inr (ldrInstr instr s)
         else if op = OP_LEA then Inr (leaInstr instr s)
         else if op = OP_ST then Inr (stInstr instr s)
         else if op = OP_STI then Inr (stiInstr instr s)
         else if op = OP_STR then Inr (strInstr instr s)
         else if op = OP_TRAP then trapInstr instr s
         else if op = OP_RES then Inl Abort
         else if op = OP_RTI then Inl Abort
         else Inl Abort)"

text \<open>
  The fetch \<^verbatim>\<open>mem_read(reg[R_PC]++)\<close>: the argument is the old program counter, and the
  increment is complete before \<^verbatim>\<open>mem_read\<close> runs.
\<close>

definition fetch :: "machine \<Rightarrow> word16 \<times> machine" where
  "fetch s =
     (let pc = reg s R_PC
      in mem_read pc (s\<lparr>reg := (reg s)(R_PC := pc + 1)\<rparr>))"

text \<open>One turn of the \<^verbatim>\<open>while (running)\<close> loop.\<close>

definition step :: "machine \<Rightarrow> fault + machine" where
  "step s = (let (instr, s1) = fetch s in execute instr s1)"

text \<open>
  The state in which \<^verbatim>\<open>main\<close> enters the loop: the registers are zero-initialised
  globals, except that \<^verbatim>\<open>R_COND\<close> is \<^verbatim>\<open>FL_ZRO\<close> and \<^verbatim>\<open>R_PC\<close> is \<^verbatim>\<open>0x3000\<close>. The memory is
  whatever the images left, the host script and the words behind the array are
  arbitrary, nothing has been written.
\<close>

definition PC_START :: word16 where "PC_START = 0x3000"

definition init_machine ::
  "(word16 \<Rightarrow> word16) \<Rightarrow> byte list \<Rightarrow> bool list \<Rightarrow> word16 list \<Rightarrow> machine" where
  "init_machine mem keys probes words =
     \<lparr>memory = mem,
      reg = (\<lambda>_. 0)(R_COND := FL_ZRO, R_PC := PC_START),
      running = True, kbd = keys, probe = probes, out = [], behind = words\<rparr>"

text \<open>
  The states the loop passes through at the head of an iteration. The words behind the
  array may be objects that the program changes (the registers, for one), so each
  instruction may find other words there than the one before.
\<close>

inductive reachable :: "machine \<Rightarrow> bool" where
  reachable_init: "reachable (init_machine mem keys probes words)"
| reachable_step:
    "reachable s \<Longrightarrow> running s \<Longrightarrow> step (s\<lparr>behind := words\<rparr>) = Inr s' \<Longrightarrow> reachable s'"

subsection \<open>Image loader\<close>

text \<open>
  The file is the list of its bytes. \<^verbatim>\<open>fread(p, sizeof(uint16_t), n, file)\<close> moves up to
  \<open>2 * n\<close> bytes from the file into the buffer, in order, and returns the number of
  complete items among them. The buffer consists of \<^verbatim>\<open>uint16_t\<close> cells in host order,
  which is little-endian on the program's platforms: a pair of bytes fills a cell, low
  byte first, and a last single byte replaces the low byte of the next cell and leaves
  its high byte as it was. \<^verbatim>\<open>swap16\<close> then turns each complete item into the big-endian
  reading of its pair.
\<close>

definition host_word :: "byte \<Rightarrow> byte \<Rightarrow> word16" where
  "host_word lo hi = ucast lo OR push_bit 8 (ucast hi)"

text \<open>The complete items of a byte sequence.\<close>

fun host_words :: "byte list \<Rightarrow> word16 list" where
  "host_words (lo # hi # rest) = host_word lo hi # host_words rest"
| "host_words _ = []"

text \<open>The bytes that \<^verbatim>\<open>fread(p, sizeof(uint16_t), n, file)\<close> moves.\<close>

definition fread_bytes :: "nat \<Rightarrow> byte list \<Rightarrow> byte list" where
  "fread_bytes n bytes = take (2 * n) bytes"

text \<open>Their effect on the cells from \<open>p\<close> on.\<close>

fun store_bytes :: "nat \<Rightarrow> byte list \<Rightarrow> (word16 \<Rightarrow> word16) \<Rightarrow> (word16 \<Rightarrow> word16)" where
  "store_bytes p (lo # hi # rest) m = store_bytes (p + 1) rest (m(of_nat p := host_word lo hi))"
| "store_bytes p [lo] m = m(of_nat p := (m (of_nat p) AND 0xFF00) OR ucast lo)"
| "store_bytes p [] m = m"

text \<open>The loop \<^verbatim>\<open>while (read-- > 0) { *p = swap16(*p); ++p; }\<close>.\<close>

fun swap_loop :: "nat \<Rightarrow> nat \<Rightarrow> (word16 \<Rightarrow> word16) \<Rightarrow> (word16 \<Rightarrow> word16)" where
  "swap_loop 0 p m = m"
| "swap_loop (Suc n) p m = swap_loop n (p + 1) (m(of_nat p := swap16 (m (of_nat p))))"

text \<open>
  \<^verbatim>\<open>uint16_t max_read = MEMORY_MAX - origin\<close>: the difference is computed in \<^verbatim>\<open>int\<close> and
  then converted to 16 bits.
\<close>

definition max_read :: "word16 \<Rightarrow> word16" where
  "max_read origin = of_nat (MEMORY_MAX - unat origin)"

text \<open>
  The number of items the second \<^verbatim>\<open>fread\<close> of \<^verbatim>\<open>read_image_file\<close> returns (the local
  \<^verbatim>\<open>read\<close>). A file of fewer than two bytes is at its end after the first \<^verbatim>\<open>fread\<close>, so
  the second one reads nothing.
\<close>

definition image_read :: "byte list \<Rightarrow> nat" where
  "image_read file =
     (case file of
        b0 # b1 # payload \<Rightarrow>
          length (host_words (fread_bytes (unat (max_read (swap16 (host_word b0 b1)))) payload))
      | _ \<Rightarrow> 0)"

text \<open>
  \<^verbatim>\<open>read_image_file\<close>. With fewer than two bytes in the file the first \<^verbatim>\<open>fread\<close> leaves
  \<^verbatim>\<open>origin\<close> without a defined value, but the second \<^verbatim>\<open>fread\<close> then moves no byte and the
  swap loop does not run: whatever \<^verbatim>\<open>origin\<close> is, the memory stays as it was.
\<close>

definition read_image_file :: "byte list \<Rightarrow> machine \<Rightarrow> machine" where
  "read_image_file file s =
     (case file of
        b0 # b1 # payload \<Rightarrow>
          (let origin = swap16 (host_word b0 b1);
               bytes = fread_bytes (unat (max_read origin)) payload;
               read = length (host_words bytes);
               m1 = store_bytes (unat origin) bytes (memory s);
               m2 = swap_loop read (unat origin) m1
           in s\<lparr>memory := m2\<rparr>)
      | _ \<Rightarrow> s)"

lemmas reg_names = R_R0_def R_R7_def R_PC_def R_COND_def
lemmas flag_names = FL_POS_def FL_ZRO_def FL_NEG_def
lemmas trap_names = TRAP_GETC_def TRAP_OUT_def TRAP_PUTS_def TRAP_IN_def TRAP_PUTSP_def
  TRAP_HALT_def
lemmas op_names = OP_BR_def OP_ADD_def OP_LD_def OP_ST_def OP_JSR_def OP_AND_def OP_LDR_def
  OP_STR_def OP_RTI_def OP_NOT_def OP_LDI_def OP_STI_def OP_JMP_def OP_RES_def OP_LEA_def
  OP_TRAP_def


section \<open>Memory-mapped keyboard\<close>

lemma minus_one_word16: "(- 1 :: word16) = 0xFFFF"
  by simp

lemma mem_read_returns: "fst (mem_read address s) = memory (snd (mem_read address s)) address"
  by (simp add: mem_read_def Let_def split: prod.splits)

text \<open>
  Claim C1. A read of an address other than \<^verbatim>\<open>0xFE00\<close> returns the word stored there and
  changes nothing. A read of \<^verbatim>\<open>0xFE00\<close> first asks the keystroke probe. With a key
  pending it stores \<^verbatim>\<open>0x8000\<close> at \<^verbatim>\<open>0xFE00\<close> and the next host byte at \<^verbatim>\<open>0xFE02\<close> (when the
  host has no byte left, \<^verbatim>\<open>getchar\<close> returns \<^verbatim>\<open>EOF\<close> and the word stored is \<^verbatim>\<open>0xFFFF\<close>);
  with no key pending it stores 0 at \<^verbatim>\<open>0xFE00\<close>. In every case the value returned is the
  word found at the address after these stores.
\<close>

theorem mem_read_behaviour:
  "(address \<noteq> MR_KBSR \<longrightarrow> mem_read address s = (memory s address, s)) \<and>
   (\<forall>ps b bs. probe s = True # ps \<and> kbd s = b # bs \<longrightarrow>
      mem_read MR_KBSR s =
        (0x8000, s\<lparr>memory := (memory s)(MR_KBSR := 0x8000, MR_KBDR := ucast b),
                   kbd := bs, probe := ps\<rparr>)) \<and>
   (\<forall>ps. probe s = True # ps \<and> kbd s = [] \<longrightarrow>
      mem_read MR_KBSR s =
        (0x8000, s\<lparr>memory := (memory s)(MR_KBSR := 0x8000, MR_KBDR := 0xFFFF),
                   probe := ps\<rparr>)) \<and>
   (\<forall>ps. probe s = False # ps \<longrightarrow>
      mem_read MR_KBSR s = (0, s\<lparr>memory := (memory s)(MR_KBSR := 0), probe := ps\<rparr>)) \<and>
   (probe s = [] \<longrightarrow>
      mem_read MR_KBSR s = (0, s\<lparr>memory := (memory s)(MR_KBSR := 0)\<rparr>)) \<and>
   fst (mem_read address s) = memory (snd (mem_read address s)) address"
  unfolding mem_read_returns
  by (auto simp add: mem_read_def check_key_def getchar_def MR_KBSR_def MR_KBDR_def
      minus_one_word16 split: list.splits prod.splits)

theorem mem_read_behaviour_witness:
  "mem_read 0x3000 (init_machine (\<lambda>_. 7) [0x41] [True] []) =
     (7, init_machine (\<lambda>_. 7) [0x41] [True] []) \<and>
   mem_read MR_KBSR (init_machine (\<lambda>_. 7) [0x41] [True] []) =
     (0x8000, init_machine ((\<lambda>_. 7)(MR_KBSR := 0x8000, MR_KBDR := 0x41)) [] [] []) \<and>
   mem_read MR_KBSR (init_machine (\<lambda>_. 7) [] [True] []) =
     (0x8000, init_machine ((\<lambda>_. 7)(MR_KBSR := 0x8000, MR_KBDR := 0xFFFF)) [] [] []) \<and>
   mem_read MR_KBSR (init_machine (\<lambda>_. 7) [0x41] [False] []) =
     (0, init_machine ((\<lambda>_. 7)(MR_KBSR := 0)) [0x41] [] []) \<and>
   mem_read MR_KBSR (init_machine (\<lambda>_. 7) [0x41] [] []) =
     (0, init_machine ((\<lambda>_. 7)(MR_KBSR := 0)) [0x41] [] [])"
  using mem_read_behaviour [of "0x3000" "init_machine (\<lambda>_. 7) [0x41] [True] []"]
    mem_read_behaviour [of MR_KBSR "init_machine (\<lambda>_. 7) [0x41] [True] []"]
    mem_read_behaviour [of MR_KBSR "init_machine (\<lambda>_. 7) [] [True] []"]
    mem_read_behaviour [of MR_KBSR "init_machine (\<lambda>_. 7) [0x41] [False] []"]
    mem_read_behaviour [of MR_KBSR "init_machine (\<lambda>_. 7) [0x41] [] []"]
  by (simp add: init_machine_def MR_KBSR_def)

text \<open>
  Claim C10. When the keystroke probe reports no key pending, a read of \<^verbatim>\<open>0xFE00\<close> stores
  0 there and returns 0; the keyboard data word at \<^verbatim>\<open>0xFE02\<close>, every other memory word,
  the registers, the running flag, the unread host bytes and the output are as before.
\<close>

theorem mem_read_no_key:
  assumes "\<not> fst (check_key s)"
  shows "fst (mem_read MR_KBSR s) = 0 \<and>
         memory (snd (mem_read MR_KBSR s)) = (memory s)(MR_KBSR := 0) \<and>
         memory (snd (mem_read MR_KBSR s)) MR_KBDR = memory s MR_KBDR \<and>
         reg (snd (mem_read MR_KBSR s)) = reg s \<and>
         running (snd (mem_read MR_KBSR s)) = running s \<and>
         kbd (snd (mem_read MR_KBSR s)) = kbd s \<and>
         out (snd (mem_read MR_KBSR s)) = out s"
  using assms
  by (auto simp add: mem_read_def check_key_def MR_KBSR_def MR_KBDR_def
      split: list.splits prod.splits)

theorem mem_read_no_key_witness:
  "\<not> fst (check_key (init_machine ((\<lambda>_. 0)(MR_KBDR := 0x41)) [0x42] [False] [])) \<and>
   fst (mem_read MR_KBSR (init_machine ((\<lambda>_. 0)(MR_KBDR := 0x41)) [0x42] [False] [])) = 0 \<and>
   memory (snd (mem_read MR_KBSR (init_machine ((\<lambda>_. 0)(MR_KBDR := 0x41)) [0x42] [False] [])))
     MR_KBDR = 0x41"
  using mem_read_no_key [of "init_machine ((\<lambda>_. 0)(MR_KBDR := 0x41)) [0x42] [False] []"]
  by (simp add: init_machine_def check_key_def MR_KBSR_def MR_KBDR_def)

section \<open>Arithmetic\<close>

lemma field3_below_cond: "unat (w AND (0x7 :: word16)) \<noteq> R_COND"
proof -
  have "w AND 0x7 \<le> 7" by (rule word_and_le1)
  then have "unat (w AND 0x7) \<le> 7" by (simp add: word_le_nat_alt)
  then show ?thesis by (simp add: R_COND_def)
qed

text \<open>
  Claim C7. \<^verbatim>\<open>ADD\<close> wraps modulo \<open>2^16\<close> and raises nothing: with the operand values
  \<^verbatim>\<open>0x7FFF\<close> and 1 (in either order) the destination register receives \<^verbatim>\<open>0x8000\<close> and
  \<^verbatim>\<open>COND\<close> becomes N; with \<^verbatim>\<open>0xFFFF\<close> and 1 the destination receives 0 and \<^verbatim>\<open>COND\<close>
  becomes Z. The second operand is the sign-extended 5-bit immediate when bit 5 of the
  instruction is set, and the register named by bits 2..0 otherwise.
\<close>

theorem add_wraps:
  "(let operand1 = reg s (unat (drop_bit 6 instr AND 0x7));
        operand2 = (if drop_bit 5 instr AND 0x1 \<noteq> 0
                    then sign_extend (instr AND 0x1F) 5
                    else reg s (unat (instr AND 0x7)));
        dr = unat (drop_bit 9 instr AND 0x7)
    in ((operand1 = 0x7FFF \<and> operand2 = 1 \<or> operand1 = 1 \<and> operand2 = 0x7FFF) \<longrightarrow>
          reg (addInstr instr s) dr = 0x8000 \<and> reg (addInstr instr s) R_COND = FL_NEG) \<and>
       ((operand1 = 0xFFFF \<and> operand2 = 1 \<or> operand1 = 1 \<and> operand2 = 0xFFFF) \<longrightarrow>
          reg (addInstr instr s) dr = 0x0000 \<and> reg (addInstr instr s) R_COND = FL_ZRO))"
  using field3_below_cond [of "drop_bit 9 instr"]
  by (auto simp add: addInstr_def update_flags_def Let_def)

theorem add_wraps_witness:
  "reg (addInstr 0x1261 (init_machine (\<lambda>_. 0) [] [] [] \<lparr>reg := (\<lambda>_. 0)(1 := 0x7FFF)\<rparr>)) 1
     = 0x8000 \<and>
   reg (addInstr 0x1261 (init_machine (\<lambda>_. 0) [] [] [] \<lparr>reg := (\<lambda>_. 0)(1 := 0x7FFF)\<rparr>)) R_COND
     = FL_NEG \<and>
   reg (addInstr 0x1642 (init_machine (\<lambda>_. 0) [] [] []
          \<lparr>reg := (\<lambda>_. 0)(1 := 0xFFFF, 2 := 1)\<rparr>)) 3 = 0 \<and>
   reg (addInstr 0x1642 (init_machine (\<lambda>_. 0) [] [] []
          \<lparr>reg := (\<lambda>_. 0)(1 := 0xFFFF, 2 := 1)\<rparr>)) R_COND = FL_ZRO"
  using add_wraps [of "init_machine (\<lambda>_. 0) [] [] [] \<lparr>reg := (\<lambda>_. 0)(1 := 0x7FFF)\<rparr>" "0x1261"]
    add_wraps [of "init_machine (\<lambda>_. 0) [] [] [] \<lparr>reg := (\<lambda>_. 0)(1 := 0xFFFF, 2 := 1)\<rparr>"
      "0x1642"]
  by (simp add: init_machine_def sign_extend_def)

section \<open>Trap service routines\<close>

text \<open>
  Claim C2, as stated, fails: \<^verbatim>\<open>trapInstr\<close> copies the program counter to R7 before it
  looks at the vector, so a TRAP with an unrecognised vector does change R7. Seen from the
  handler, R7 goes from 0 to \<^verbatim>\<open>0x3000\<close>; seen from the run loop, with the instruction
  \<^verbatim>\<open>0xF0FF\<close> stored at \<^verbatim>\<open>0x3000\<close>, R7 goes from 0 to \<^verbatim>\<open>0x3001\<close>.
\<close>

theorem trap_unknown_vector_writes_R7:
  "reg (init_machine (\<lambda>_. 0) [] [] []) R_R7 = 0 \<and>
   trapInstr 0xF0FF (init_machine (\<lambda>_. 0) [] [] []) =
     Inr (init_machine (\<lambda>_. 0) [] [] []
          \<lparr>reg := (\<lambda>_. 0)(R_COND := FL_ZRO, R_PC := 0x3000, R_R7 := 0x3000)\<rparr>) \<and>
   step (init_machine ((\<lambda>_. 0)(0x3000 := 0xF0FF)) [] [] []) =
     Inr (init_machine ((\<lambda>_. 0)(0x3000 := 0xF0FF)) [] [] []
          \<lparr>reg := (\<lambda>_. 0)(R_COND := FL_ZRO, R_PC := 0x3001, R_R7 := 0x3001)\<rparr>)"
  by (simp add: trapInstr_def step_def fetch_def execute_def mem_read_def init_machine_def
      reg_names trap_names op_names PC_START_def MR_KBSR_def Let_def)

text \<open>
  Claim C2, amended. For every trap vector outside \<^verbatim>\<open>0x20 .. 0x25\<close>, the TRAP handler
  returns without a fault and its only effect is that R7 receives the program counter:
  every other register (\<^verbatim>\<open>COND\<close> included), all of memory, the running flag, the host
  input and the output are unchanged.
\<close>

theorem trap_unknown_vector:
  assumes "instr AND 0xFF \<notin> {TRAP_GETC, TRAP_OUT, TRAP_PUTS, TRAP_IN, TRAP_PUTSP, TRAP_HALT}"
  shows "trapInstr instr s = Inr (s\<lparr>reg := (reg s)(R_R7 := reg s R_PC)\<rparr>)"
  using assms by (simp add: trapInstr_def Let_def)

theorem trap_unknown_vector_witness:
  "trapInstr 0xF0FF (init_machine (\<lambda>_. 0) [] [] []) =
     Inr (init_machine (\<lambda>_. 0) [] [] []
          \<lparr>reg := (\<lambda>_. 0)(R_COND := FL_ZRO, R_PC := PC_START, R_R7 := PC_START)\<rparr>)"
  using trap_unknown_vector [of "0xF0FF" "init_machine (\<lambda>_. 0) [] [] []"]
  by (simp add: trap_names init_machine_def)

lemma ucast_byte_zero: "(ucast (b :: byte) :: word16) = 0 \<longleftrightarrow> b = 0"
proof
  assume "(ucast b :: word16) = 0"
  then have "(ucast (ucast b :: word16) :: byte) = 0" by simp
  moreover have "(ucast (ucast b :: word16) :: byte) = b"
    by (rule bit_word_eqI) (auto simp add: bit_simps)
  ultimately show "b = 0" by simp
qed simp

lemma ucast_byte_high: "8 \<le> n \<Longrightarrow> drop_bit n (ucast (b :: byte) :: word16) = 0"
  by (rule bit_word_eqI) (auto simp add: bit_simps dest: bit_imp_le_length)

text \<open>
  Claim C6, as stated, fails in its last part: executing \<^verbatim>\<open>TRAP 0x20\<close> also changes R7,
  which receives the program counter as for every TRAP. Here R7 goes from 0 to \<^verbatim>\<open>0x3000\<close>
  while R0 receives the byte \<^verbatim>\<open>0x41\<close>.
\<close>

theorem trap_getc_writes_R7:
  "reg (init_machine (\<lambda>_. 0) [0x41] [] []) R_R7 = 0 \<and>
   trapInstr 0xF020 (init_machine (\<lambda>_. 0) [0x41] [] []) =
     Inr (init_machine (\<lambda>_. 0) [] [] []
          \<lparr>reg := (\<lambda>_. 0)(R_COND := FL_ZRO, R_PC := 0x3000, R_R7 := 0x3000, R_R0 := 0x41,
                            R_COND := FL_POS)\<rparr>)"
  by (simp add: trapInstr_def getchar_def update_flags_def init_machine_def
      reg_names trap_names flag_names PC_START_def Let_def)

text \<open>
  Claim C6, amended. For every byte delivered by the host byte source, \<^verbatim>\<open>TRAP 0x20\<close>
  (GETC) sets R0 to that byte with the high 8 bits zero, sets \<^verbatim>\<open>COND\<close> from R0 (Z for the
  zero byte and P otherwise, as bit 15 is clear), copies the program counter to R7 as
  every TRAP does, echoes nothing, and changes no other register and no memory word.
\<close>

theorem trap_getc:
  assumes "instr AND 0xFF = TRAP_GETC" and "kbd s = b # bs"
  shows "trapInstr instr s =
           Inr (s\<lparr>reg := (reg s)(R_R7 := reg s R_PC, R_R0 := ucast b,
                                   R_COND := (if b = 0 then FL_ZRO else FL_POS)),
                  kbd := bs\<rparr>) \<and>
         drop_bit 8 (ucast b :: word16) = 0"
  using assms ucast_byte_high [of 8 b] ucast_byte_high [of 15 b]
  by (simp add: trapInstr_def getchar_def update_flags_def Let_def reg_names ucast_byte_zero)

theorem trap_getc_witness:
  "trapInstr 0xF020 (init_machine (\<lambda>_. 0) [0xC3, 0x0A] [] []) =
     Inr (init_machine (\<lambda>_. 0) [0x0A] [] []
          \<lparr>reg := (\<lambda>_. 0)(R_COND := FL_ZRO, R_PC := PC_START, R_R7 := PC_START, R_R0 := 0xC3,
                            R_COND := FL_POS)\<rparr>)"
  using trap_getc [of "0xF020" "init_machine (\<lambda>_. 0) [0xC3, 0x0A] [] []" "0xC3" "[0x0A]"]
  by (simp add: trap_names init_machine_def)

lemma putc_fields [simp]:
  "memory (putc c s) = memory s" "reg (putc c s) = reg s" "running (putc c s) = running s"
  "kbd (putc c s) = kbd s" "probe (putc c s) = probe s" "out (putc c s) = out s @ [c]"
  "behind (putc c s) = behind s"
  by (simp_all add: putc_def)

lemma deref_putc [simp]: "deref (putc b s) c = deref s c"
  by (simp add: deref_def)

lemma deref_reg_update [simp]: "deref (s\<lparr>reg := r\<rparr>) c = deref s c"
  by (simp add: deref_def)

lemma deref_out_update [simp]: "deref (s\<lparr>out := bs\<rparr>) c = deref s c"
  by (simp add: deref_def)









section \<open>Registers across one instruction\<close>

lemma mem_read_reg [simp]: "reg (snd (mem_read a s)) = reg s"
  by (auto simp add: mem_read_def check_key_def getchar_def Let_def split: prod.splits list.splits)

lemma update_flags_cond: "reg (update_flags r s) R_COND \<in> {FL_POS, FL_ZRO, FL_NEG}"
  by (simp add: update_flags_def)

lemma puts_loop_reg: "puts_loop c s = Inr s' \<Longrightarrow> reg s' = reg s"
proof (induction c s rule: puts_loop.induct)
  case (1 c s)
  show ?case
  proof (cases "deref s c")
    case None
    with "1.prems" show ?thesis by (simp add: puts_loop.simps [of c s])
  next
    case (Some w)
    show ?thesis
    proof (cases "w = 0")
      case True
      with Some "1.prems" show ?thesis by (simp add: puts_loop.simps [of c s])
    next
      case False
      from "1.prems" Some False have "puts_loop (c + 1) (putc (ucast w) s) = Inr s'"
        by (simp add: puts_loop.simps [of c s])
      from "1.IH" [OF Some False this] show ?thesis by simp
    qed
  qed
qed

lemma puts_loop_fault: "puts_loop c s = Inl e \<Longrightarrow> e = OutOfBounds"
proof (induction c s rule: puts_loop.induct)
  case (1 c s)
  show ?case
  proof (cases "deref s c")
    case None
    with "1.prems" show ?thesis by (simp add: puts_loop.simps [of c s])
  next
    case (Some w)
    show ?thesis
    proof (cases "w = 0")
      case True
      with Some "1.prems" show ?thesis by (simp add: puts_loop.simps [of c s])
    next
      case False
      from "1.prems" Some False have "puts_loop (c + 1) (putc (ucast w) s) = Inl e"
        by (simp add: puts_loop.simps [of c s])
      from "1.IH" [OF Some False this] show ?thesis .
    qed
  qed
qed

lemma putsp_loop_reg: "putsp_loop c s = Inr s' \<Longrightarrow> reg s' = reg s"
proof (induction c s rule: putsp_loop.induct)
  case (1 c s)
  show ?case
  proof (cases "deref s c")
    case None
    with "1.prems" show ?thesis by (simp add: putsp_loop.simps [of c s])
  next
    case (Some w)
    show ?thesis
    proof (cases "w = 0")
      case True
      with Some "1.prems" show ?thesis by (simp add: putsp_loop.simps [of c s])
    next
      case False
      let ?s1 = "putc (ucast (w AND 0xFF)) s"
      let ?c2 = "ucast (drop_bit 8 w) :: byte"
      let ?s2 = "if ?c2 \<noteq> 0 then putc ?c2 ?s1 else ?s1"
      from "1.prems" Some False have "putsp_loop (c + 1) ?s2 = Inr s'"
        by (simp add: putsp_loop.simps [of c s] Let_def)
      from "1.IH" [OF Some False refl refl refl refl this] show ?thesis by simp
    qed
  qed
qed

lemma putsp_loop_fault: "putsp_loop c s = Inl e \<Longrightarrow> e = OutOfBounds"
proof (induction c s rule: putsp_loop.induct)
  case (1 c s)
  show ?case
  proof (cases "deref s c")
    case None
    with "1.prems" show ?thesis by (simp add: putsp_loop.simps [of c s])
  next
    case (Some w)
    show ?thesis
    proof (cases "w = 0")
      case True
      with Some "1.prems" show ?thesis by (simp add: putsp_loop.simps [of c s])
    next
      case False
      let ?s1 = "putc (ucast (w AND 0xFF)) s"
      let ?c2 = "ucast (drop_bit 8 w) :: byte"
      let ?s2 = "if ?c2 \<noteq> 0 then putc ?c2 ?s1 else ?s1"
      from "1.prems" Some False have "putsp_loop (c + 1) ?s2 = Inl e"
        by (simp add: putsp_loop.simps [of c s] Let_def)
      from "1.IH" [OF Some False refl refl refl refl this] show ?thesis .
    qed
  qed
qed

lemma trapInstr_reg:
  assumes "trapInstr instr s = Inr s'"
  shows "reg s' = (reg s)(R_R7 := reg s R_PC) \<or>
         (\<exists>v c. reg s' = (reg s)(R_R7 := reg s R_PC, R_R0 := v, R_COND := c) \<and>
                c \<in> {FL_POS, FL_ZRO, FL_NEG})"
proof -
  let ?t = "s\<lparr>reg := (reg s)(R_R7 := reg s R_PC)\<rparr>"
  let ?v = "instr AND 0xFF"
  consider (getc) "?v = TRAP_GETC" | (out) "?v = TRAP_OUT" | (puts) "?v = TRAP_PUTS"
    | (inp) "?v = TRAP_IN" | (putsp) "?v = TRAP_PUTSP" | (halt) "?v = TRAP_HALT"
    | (other) "?v \<notin> {TRAP_GETC, TRAP_OUT, TRAP_PUTS, TRAP_IN, TRAP_PUTSP, TRAP_HALT}"
    by blast
  then show ?thesis
  proof cases
    case getc
    with assms have "s' = update_flags R_R0 ((snd (getchar ?t))\<lparr>reg := (reg (snd (getchar ?t)))(R_R0 := word_of_int (fst (getchar ?t)))\<rparr>)"
      by (simp add: trapInstr_def Let_def split: prod.splits)
    moreover have "reg (snd (getchar ?t)) = reg ?t"
      by (simp add: getchar_def split: list.splits)
    ultimately show ?thesis
      by (auto simp add: update_flags_def)
  next
    case out
    with assms have "s' = putc (ucast (reg ?t R_R0)) ?t"
      by (simp add: trapInstr_def Let_def trap_names)
    then show ?thesis by (simp add: putc_def)
  next
    case puts
    with assms have "puts_loop (unat (reg ?t R_R0)) ?t = Inr s'"
      by (simp add: trapInstr_def Let_def trap_names)
    from puts_loop_reg [OF this] show ?thesis by simp
  next
    case inp
    let ?g = "getchar (print_string ''Enter a character: '' ?t)"
    let ?c = "word_of_int (fst ?g) :: byte"
    from inp assms have "s' = update_flags R_R0 ((putc ?c (snd ?g))\<lparr>reg := (reg (putc ?c (snd ?g)))(R_R0 := scast ?c)\<rparr>)"
      by (simp add: trapInstr_def Let_def trap_names split: prod.splits)
    moreover have "reg (putc ?c (snd ?g)) = reg ?t"
      by (simp add: getchar_def putc_def print_string_def split: list.splits)
    ultimately show ?thesis
      by (auto simp add: update_flags_def)
  next
    case putsp
    with assms have "putsp_loop (unat (reg ?t R_R0)) ?t = Inr s'"
      by (simp add: trapInstr_def Let_def trap_names)
    from putsp_loop_reg [OF this] show ?thesis by simp
  next
    case halt
    with assms have "s' = (print_string (''HALT'' @ [CHR 0x0A]) ?t)\<lparr>running := False\<rparr>"
      by (simp add: trapInstr_def Let_def trap_names)
    then show ?thesis by (simp add: print_string_def)
  next
    case other
    with assms have "s' = ?t" by (simp add: trapInstr_def Let_def)
    then show ?thesis by simp
  qed
qed

lemma trapInstr_fault:
  assumes "trapInstr instr s = Inl e"
  shows "e = OutOfBounds \<and> (instr AND 0xFF = TRAP_PUTS \<or> instr AND 0xFF = TRAP_PUTSP)"
proof -
  have "instr AND 0xFF = TRAP_PUTS \<or> instr AND 0xFF = TRAP_PUTSP"
    using assms by (simp add: trapInstr_def Let_def split: if_splits prod.splits)
  moreover have "e = OutOfBounds"
    using assms puts_loop_fault putsp_loop_fault
    by (auto simp add: trapInstr_def Let_def split: if_splits prod.splits)
  ultimately show ?thesis by simp
qed


lemma field3_below_pc: "unat (w AND (0x7 :: word16)) \<noteq> R_PC"
proof -
  have "w AND 0x7 \<le> 7" by (rule word_and_le1)
  then have "unat (w AND 0x7) \<le> 7" by (simp add: word_le_nat_alt)
  then show ?thesis by (simp add: R_PC_def)
qed

lemma execute_cond:
  assumes "execute instr s = Inr s'" and "reg s R_COND \<in> {FL_POS, FL_ZRO, FL_NEG}"
  shows "reg s' R_COND \<in> {FL_POS, FL_ZRO, FL_NEG}"
proof -
  let ?op = "drop_bit 12 instr"
  consider (flags) "?op \<in> {OP_ADD, OP_AND, OP_NOT, OP_LD, OP_LDI, OP_LDR, OP_LEA}"
    | (br) "?op = OP_BR" | (jmp) "?op = OP_JMP" | (jsr) "?op = OP_JSR"
    | (st) "?op = OP_ST" | (sti) "?op = OP_STI" | (str) "?op = OP_STR" | (trap) "?op = OP_TRAP"
    | (bad) "?op \<notin> {OP_ADD, OP_AND, OP_NOT, OP_LD, OP_LDI, OP_LDR, OP_LEA, OP_BR, OP_JMP,
                       OP_JSR, OP_ST, OP_STI, OP_STR, OP_TRAP}"
    by blast
  then show ?thesis
  proof cases
    case flags
    define P where "P = (\<lambda>t :: machine. reg t R_COND \<in> {FL_POS, FL_ZRO, FL_NEG})"
    have uf: "P (update_flags r t)" for r t
      unfolding P_def by (rule update_flags_cond)
    from flags assms(1) have "P s'"
      by (auto simp add: execute_def Let_def op_names addInstr_def andInstr_def notInstr_def
          ldInstr_def ldiInstr_def ldrInstr_def leaInstr_def uf split: prod.splits)
    then show ?thesis unfolding P_def .
  next
    case br
    with assms show ?thesis
      by (auto simp add: execute_def Let_def op_names brInstr_def reg_names split: if_splits)
  next
    case jmp
    with assms show ?thesis
      by (auto simp add: execute_def Let_def op_names jmpInstr_def reg_names)
  next
    case jsr
    with assms show ?thesis
      by (auto simp add: execute_def Let_def op_names jsrInstr_def reg_names split: if_splits)
  next
    case st
    with assms show ?thesis
      by (auto simp add: execute_def Let_def op_names stInstr_def mem_write_def)
  next
    case sti
    obtain a t where mr: "mem_read (reg s R_PC + sign_extend (instr AND 0x1FF) 9) s = (a, t)"
      by (cases "mem_read (reg s R_PC + sign_extend (instr AND 0x1FF) 9) s")
    have "reg t = reg s"
      using mem_read_reg [of "reg s R_PC + sign_extend (instr AND 0x1FF) 9" s] by (simp add: mr)
    moreover from sti assms(1) mr have "reg s' = reg t"
      by (auto simp add: execute_def Let_def op_names stiInstr_def mem_write_def)
    ultimately show ?thesis using assms(2) by simp
  next
    case str
    with assms show ?thesis
      by (auto simp add: execute_def Let_def op_names strInstr_def mem_write_def)
  next
    case trap
    with assms(1) have "trapInstr instr s = Inr s'"
      by (simp add: execute_def Let_def op_names)
    from trapInstr_reg [OF this] assms(2) show ?thesis
      by (auto simp add: reg_names)
  next
    case bad
    with assms(1) show ?thesis
      by (simp add: execute_def Let_def split: if_splits)
  qed
qed

lemma fetch_reg: "reg (snd (fetch s)) = (reg s)(R_PC := reg s R_PC + 1)"
  by (simp add: fetch_def Let_def)

lemma step_cond:
  assumes "step s = Inr s'" and "reg s R_COND \<in> {FL_POS, FL_ZRO, FL_NEG}"
  shows "reg s' R_COND \<in> {FL_POS, FL_ZRO, FL_NEG}"
proof -
  from assms(1) have "execute (fst (fetch s)) (snd (fetch s)) = Inr s'"
    by (simp add: step_def split: prod.splits)
  moreover have "reg (snd (fetch s)) R_COND \<in> {FL_POS, FL_ZRO, FL_NEG}"
    using assms(2) by (simp add: fetch_reg reg_names)
  ultimately show ?thesis by (rule execute_cond)
qed

lemma reachable_cond: "reachable s \<Longrightarrow> reg s R_COND \<in> {FL_POS, FL_ZRO, FL_NEG}"
proof (induction rule: reachable.induct)
  case (reachable_init mem keys probes words)
  show ?case by (simp add: init_machine_def reg_names)
next
  case (reachable_step s words s')
  from reachable_step.IH have "reg (s\<lparr>behind := words\<rparr>) R_COND \<in> {FL_POS, FL_ZRO, FL_NEG}"
    by simp
  with reachable_step.hyps(3) show ?case by (rule step_cond)
qed

text \<open>
  Claim C4. The run loop starts with \<^verbatim>\<open>COND = Z\<close>; from any state in which \<^verbatim>\<open>COND\<close> is
  one of \<^verbatim>\<open>0b001\<close>, \<^verbatim>\<open>0b010\<close>, \<^verbatim>\<open>0b100\<close>, every instruction that completes (whatever the
  opcode handler or trap service routine) leaves it one of the three; hence in every
  state the run loop reaches, \<^verbatim>\<open>COND\<close> is one of the three both before and after the
  instruction executed from it.
\<close>

theorem cond_one_hot:
  "reg (init_machine mem keys probes words) R_COND = FL_ZRO \<and>
   (reg s R_COND \<in> {0b001, 0b010, 0b100} \<and> step s = Inr s' \<longrightarrow>
      reg s' R_COND \<in> {0b001, 0b010, 0b100}) \<and>
   (reachable s \<longrightarrow>
      reg s R_COND \<in> {0b001, 0b010, 0b100} \<and>
      (\<forall>t. step s = Inr t \<longrightarrow> reg t R_COND \<in> {0b001, 0b010, 0b100}))"
proof -
  have set: "{FL_POS, FL_ZRO, FL_NEG} = {0b001, 0b010, 0b100 :: word16}"
    by (simp add: flag_names)
  have init: "reg (init_machine mem keys probes words) R_COND = FL_ZRO"
    by (simp add: init_machine_def reg_names)
  have keep: "reg t R_COND \<in> {0b001, 0b010, 0b100}"
    if "reg u R_COND \<in> {0b001, 0b010, 0b100}" and "step u = Inr t" for u t
    using step_cond [of u t] that unfolding set by simp
  have "reg s R_COND \<in> {0b001, 0b010, 0b100}" if "reachable s"
    using reachable_cond [OF that] unfolding set .
  with init keep show ?thesis by blast
qed

theorem cond_one_hot_witness:
  "reachable (init_machine ((\<lambda>_. 0)(0x3000 := 0x1027)) [] [] []) \<and>
   reg (init_machine ((\<lambda>_. 0)(0x3000 := 0x1027)) [] [] []) R_COND = 0b010 \<and>
   step (init_machine ((\<lambda>_. 0)(0x3000 := 0x1027)) [] [] []) =
     Inr (init_machine ((\<lambda>_. 0)(0x3000 := 0x1027)) [] [] []
          \<lparr>reg := (\<lambda>_. 0)(R_COND := FL_ZRO, R_PC := 0x3001, 0 := 7, R_COND := FL_POS)\<rparr>) \<and>
   reg (init_machine ((\<lambda>_. 0)(0x3000 := 0x1027)) [] [] []
          \<lparr>reg := (\<lambda>_. 0)(R_COND := FL_ZRO, R_PC := 0x3001, 0 := 7, R_COND := FL_POS)\<rparr>) R_COND
     \<in> {0b001, 0b010, 0b100}"
proof -
  let ?s = "init_machine ((\<lambda>_. 0)(0x3000 := 0x1027)) [] [] []"
  let ?t = "?s\<lparr>reg := (\<lambda>_. 0)(R_COND := FL_ZRO, R_PC := 0x3001, 0 := 7, R_COND := FL_POS)\<rparr>"
  have r: "reachable ?s" by (rule reachable_init)
  have st: "step ?s = Inr ?t"
    by (simp add: step_def fetch_def execute_def mem_read_def init_machine_def addInstr_def
        update_flags_def sign_extend_def reg_names op_names flag_names PC_START_def MR_KBSR_def
        Let_def)
  from cond_one_hot [of "(\<lambda>_. 0)(0x3000 := 0x1027)" "[]" "[]" "[]" ?s ?t] st r show ?thesis
    by (simp add: flag_names)
qed

text \<open>
  Claim C5. After a JSR, JSRR or TRAP instruction fetched at address A (the program
  counter before the fetch), R7 holds A + 1 modulo \<open>2^16\<close>. JSR and JSRR always complete;
  a TRAP completes unless the scan of PUTS or PUTSP runs off the end of the mapped
  storage behind the array.
\<close>

theorem link_register:
  assumes "fetch s = (instr, s1)"
    and "drop_bit 12 instr = OP_JSR \<or> drop_bit 12 instr = OP_TRAP"
  shows "case step s of
           Inr s' \<Rightarrow> reg s' R_R7 = reg s R_PC + 1
         | Inl e \<Rightarrow> e = OutOfBounds \<and> drop_bit 12 instr = OP_TRAP \<and>
                    (instr AND 0xFF = TRAP_PUTS \<or> instr AND 0xFF = TRAP_PUTSP)"
proof -
  have st: "step s = execute instr s1" using assms(1) by (simp add: step_def)
  have pc: "reg s1 R_PC = reg s R_PC + 1"
    using fetch_reg [of s] assms(1) by simp
  from assms(2) show ?thesis
  proof
    assume jsr: "drop_bit 12 instr = OP_JSR"
    then have "step s = Inr (jsrInstr instr s1)"
      by (simp add: st execute_def Let_def op_names)
    moreover have "reg (jsrInstr instr s1) R_R7 = reg s1 R_PC"
      by (simp add: jsrInstr_def Let_def reg_names)
    ultimately show ?thesis by (simp add: pc)
  next
    assume trap: "drop_bit 12 instr = OP_TRAP"
    then have ex: "step s = trapInstr instr s1"
      by (simp add: st execute_def Let_def op_names)
    show ?thesis
    proof (cases "trapInstr instr s1")
      case (Inl e)
      with trapInstr_fault [OF Inl] trap show ?thesis by (simp add: ex)
    next
      case (Inr s')
      from trapInstr_reg [OF Inr] have "reg s' R_R7 = reg s1 R_PC"
        by (auto simp add: reg_names)
      with Inr show ?thesis by (simp add: ex pc)
    qed
  qed
qed

theorem link_register_witness:
  "step (init_machine ((\<lambda>_. 0)(0x3000 := 0x4803)) [] [] []) =
     Inr (init_machine ((\<lambda>_. 0)(0x3000 := 0x4803)) [] [] []
          \<lparr>reg := (\<lambda>_. 0)(R_COND := FL_ZRO, R_PC := 0x3001, R_R7 := 0x3001, R_PC := 0x3004)\<rparr>) \<and>
   reg (init_machine ((\<lambda>_. 0)(0x3000 := 0x4803)) [] [] []
          \<lparr>reg := (\<lambda>_. 0)(R_COND := FL_ZRO, R_PC := 0x3001, R_R7 := 0x3001, R_PC := 0x3004)\<rparr>) R_R7
     = reg (init_machine ((\<lambda>_. 0)(0x3000 := 0x4803)) [] [] []) R_PC + 1 \<and>
   step (init_machine ((\<lambda>_. 0)(0x3000 := 0xF021)) [] [] []) =
     Inr (init_machine ((\<lambda>_. 0)(0x3000 := 0xF021)) [] [] []
          \<lparr>reg := (\<lambda>_. 0)(R_COND := FL_ZRO, R_PC := 0x3001, R_R7 := 0x3001), out := [0]\<rparr>) \<and>
   reg (init_machine ((\<lambda>_. 0)(0x3000 := 0xF021)) [] [] []
          \<lparr>reg := (\<lambda>_. 0)(R_COND := FL_ZRO, R_PC := 0x3001, R_R7 := 0x3001), out := [0]\<rparr>) R_R7
     = reg (init_machine ((\<lambda>_. 0)(0x3000 := 0xF021)) [] [] []) R_PC + 1"
proof -
  let ?s = "init_machine ((\<lambda>_. 0)(0x3000 := 0x4803)) [] [] []"
  let ?s1 = "?s\<lparr>reg := (\<lambda>_. 0)(R_COND := FL_ZRO, R_PC := 0x3001)\<rparr>"
  let ?u = "init_machine ((\<lambda>_. 0)(0x3000 := 0xF021)) [] [] []"
  let ?u1 = "?u\<lparr>reg := (\<lambda>_. 0)(R_COND := FL_ZRO, R_PC := 0x3001)\<rparr>"
  have f: "fetch ?s = (0x4803, ?s1)" "fetch ?u = (0xF021, ?u1)"
    by (simp_all add: fetch_def mem_read_def init_machine_def reg_names PC_START_def
        MR_KBSR_def)
  have op: "drop_bit 12 (0x4803 :: word16) = OP_JSR \<or> drop_bit 12 (0x4803 :: word16) = OP_TRAP"
    "drop_bit 12 (0xF021 :: word16) = OP_JSR \<or> drop_bit 12 (0xF021 :: word16) = OP_TRAP"
    by (simp_all add: op_names)
  have st: "step ?s = Inr (?s\<lparr>reg := (\<lambda>_. 0)(R_COND := FL_ZRO, R_PC := 0x3001,
      R_R7 := 0x3001, R_PC := 0x3004)\<rparr>)"
    by (simp add: step_def fetch_def mem_read_def execute_def jsrInstr_def sign_extend_def
        init_machine_def reg_names op_names PC_START_def MR_KBSR_def Let_def)
  have su: "step ?u = Inr (?u\<lparr>reg := (\<lambda>_. 0)(R_COND := FL_ZRO, R_PC := 0x3001,
      R_R7 := 0x3001), out := [0]\<rparr>)"
    by (simp add: step_def fetch_def mem_read_def execute_def trapInstr_def putc_def
        init_machine_def reg_names op_names trap_names PC_START_def MR_KBSR_def Let_def)
  from link_register [OF f(1) op(1)] link_register [OF f(2) op(2)] st su show ?thesis
    by simp
qed

section \<open>Loads\<close>

lemma mem_read_reg_update:
  "mem_read a (s\<lparr>reg := r\<rparr>) = (fst (mem_read a s), (snd (mem_read a s))\<lparr>reg := r\<rparr>)"
  by (auto simp add: mem_read_def check_key_def getchar_def Let_def split: prod.splits list.splits)

lemma ld_effect:
  assumes "mem_read (reg s R_PC + sign_extend (instr AND 0x1FF) 9) s = (v, m)"
  shows "ldInstr instr s = update_flags (unat (drop_bit 9 instr AND 0x7))
           (m\<lparr>reg := (reg m)(unat (drop_bit 9 instr AND 0x7) := v)\<rparr>)"
  using assms by (simp add: ldInstr_def Let_def)

lemma ldr_effect:
  assumes "mem_read (reg s (unat (drop_bit 6 instr AND 0x7)) + sign_extend (instr AND 0x3F) 6) s = (v, m)"
  shows "ldrInstr instr s = update_flags (unat (drop_bit 9 instr AND 0x7))
           (m\<lparr>reg := (reg m)(unat (drop_bit 9 instr AND 0x7) := v)\<rparr>)"
  using assms by (simp add: ldrInstr_def Let_def)

lemma lea_effect:
  "leaInstr instr s = s\<lparr>reg := reg (leaInstr instr s)\<rparr>"
  "reg (leaInstr instr s) (unat (drop_bit 9 instr AND 0x7)) = reg s R_PC + sign_extend (instr AND 0x1FF) 9"
  using field3_below_cond [of "drop_bit 9 instr"]
  by (simp_all add: leaInstr_def Let_def update_flags_def)

lemma update_flags_result:
  "r \<noteq> R_COND \<Longrightarrow> reg (update_flags r (m\<lparr>reg := f(r := v)\<rparr>)) r = v"
  "reg (update_flags r (m\<lparr>reg := f(r := v)\<rparr>)) R_COND =
     (if v = 0 then FL_ZRO else if drop_bit 15 v \<noteq> 0 then FL_NEG else FL_POS)"
  by (simp_all add: update_flags_def)

text \<open>
  Claim C8. Let \<open>lea\<close> be an instruction word that decodes as \<^verbatim>\<open>LEA dr, off\<close>, \<open>ldr\<close> one
  that decodes as \<^verbatim>\<open>LDR dr2, dr, 0\<close> and \<open>ld\<close> one that decodes as \<^verbatim>\<open>LD dr2, off\<close>.
  From any machine state, executing \<open>lea\<close> and then \<open>ldr\<close> (each after the increment of
  the program counter that its fetch performs, so at consecutive addresses) leaves
  \<open>dr2\<close> and \<^verbatim>\<open>COND\<close> as executing \<open>ld\<close> at the first address does. The equality does not
  depend on the two registers being distinct, nor on the addressed cell being an
  ordinary one: a poll of the keyboard status register finds the same host on both
  sides.
\<close>

theorem lea_ldr_equals_ld:
  assumes "drop_bit 12 lea = OP_LEA" and "drop_bit 12 ldr = OP_LDR" and "drop_bit 12 ld = OP_LD"
    and "drop_bit 6 ldr AND 0x7 = drop_bit 9 lea AND 0x7"
    and "ldr AND 0x3F = 0"
    and "drop_bit 9 ld AND 0x7 = drop_bit 9 ldr AND 0x7"
    and "ld AND 0x1FF = lea AND 0x1FF"
  shows "\<exists>s1 s2 t.
           execute lea (s\<lparr>reg := (reg s)(R_PC := reg s R_PC + 1)\<rparr>) = Inr s1 \<and>
           execute ldr (s1\<lparr>reg := (reg s1)(R_PC := reg s1 R_PC + 1)\<rparr>) = Inr s2 \<and>
           execute ld (s\<lparr>reg := (reg s)(R_PC := reg s R_PC + 1)\<rparr>) = Inr t \<and>
           reg s2 (unat (drop_bit 9 ldr AND 0x7)) = reg t (unat (drop_bit 9 ldr AND 0x7)) \<and>
           reg s2 R_COND = reg t R_COND"
proof -
  define rb where "rb = (reg s)(R_PC := reg s R_PC + 1)"
  define b where "b = s\<lparr>reg := rb\<rparr>"
  define a where "a = rb R_PC + sign_extend (lea AND 0x1FF) 9"
  define s1 where "s1 = leaInstr lea b"
  define rb1 where "rb1 = (reg s1)(R_PC := reg s1 R_PC + 1)"
  define b1 where "b1 = s1\<lparr>reg := rb1\<rparr>"
  define s2 where "s2 = ldrInstr ldr b1"
  define t where "t = ldInstr ld b"
  define dr where "dr = unat (drop_bit 9 lea AND 0x7)"
  define dr2 where "dr2 = unat (drop_bit 9 ldr AND 0x7)"
  have e1: "execute lea b = Inr s1"
    using assms(1) by (simp add: execute_def op_names s1_def)
  have e2: "execute ldr b1 = Inr s2"
    using assms(2) by (simp add: execute_def op_names s2_def)
  have e3: "execute ld b = Inr t"
    using assms(3) by (simp add: execute_def op_names t_def)
  have dr2c: "dr2 \<noteq> R_COND" unfolding dr2_def by (rule field3_below_cond)
  have regb: "reg b = rb" by (simp add: b_def)
  obtain v m where mr: "mem_read a s = (v, m)" by (cases "mem_read a s")
  have mrb: "mem_read a (s\<lparr>reg := r\<rparr>) = (v, m\<lparr>reg := r\<rparr>)" for r
    by (simp add: mem_read_reg_update mr)
  have "mem_read (reg b R_PC + sign_extend (ld AND 0x1FF) 9) b = (v, m\<lparr>reg := rb\<rparr>)"
    unfolding assms(7) regb a_def [symmetric] unfolding b_def by (rule mrb)
  from ld_effect [OF this] have t: "t = update_flags dr2 (m\<lparr>reg := rb(dr2 := v)\<rparr>)"
    by (simp add: t_def dr2_def assms(6))
  have s1b: "s1 = s\<lparr>reg := reg s1\<rparr>"
    using lea_effect(1) [of lea b] by (simp add: s1_def b_def)
  have "reg s1 dr = a"
    using lea_effect(2) [of lea b] by (simp add: s1_def dr_def a_def regb)
  moreover have "dr \<noteq> R_PC" unfolding dr_def by (rule field3_below_pc)
  ultimately have base: "rb1 dr = a" by (simp add: rb1_def)
  have b1s: "b1 = s\<lparr>reg := rb1\<rparr>"
    unfolding b1_def by (subst s1b) simp
  have regb1: "reg b1 = rb1" by (simp add: b1_def)
  have se0: "sign_extend 0 6 = 0" by (simp add: sign_extend_def)
  have "reg b1 (unat (drop_bit 6 ldr AND 0x7)) + sign_extend (ldr AND 0x3F) 6 = a"
    unfolding assms(4) assms(5) se0 regb1 using base by (simp add: dr_def)
  moreover have "mem_read a b1 = (v, m\<lparr>reg := rb1\<rparr>)"
    unfolding b1s by (rule mrb)
  ultimately have "mem_read (reg b1 (unat (drop_bit 6 ldr AND 0x7)) + sign_extend (ldr AND 0x3F) 6) b1
      = (v, m\<lparr>reg := rb1\<rparr>)" by simp
  from ldr_effect [OF this] have s2: "s2 = update_flags dr2 (m\<lparr>reg := rb1(dr2 := v)\<rparr>)"
    by (simp add: s2_def dr2_def)
  have "reg s2 dr2 = reg t dr2 \<and> reg s2 R_COND = reg t R_COND"
    unfolding s2 t using dr2c by (simp add: update_flags_result)
  with e1 e2 e3 show ?thesis
    unfolding b_def rb_def b1_def rb1_def dr2_def by blast
qed

theorem lea_ldr_equals_ld_witness:
  "drop_bit 12 (0xE201 :: word16) = OP_LEA \<and> drop_bit 12 (0x6440 :: word16) = OP_LDR \<and>
   drop_bit 12 (0x2401 :: word16) = OP_LD \<and>
   (\<exists>s1 s2 t.
      execute 0xE201 (init_machine ((\<lambda>_. 0)(0x3002 := 0xFFFE)) [] [] []
                        \<lparr>reg := (\<lambda>_. 0)(R_COND := FL_ZRO, R_PC := 0x3001)\<rparr>) = Inr s1 \<and>
      execute 0x6440 (s1\<lparr>reg := (reg s1)(R_PC := reg s1 R_PC + 1)\<rparr>) = Inr s2 \<and>
      execute 0x2401 (init_machine ((\<lambda>_. 0)(0x3002 := 0xFFFE)) [] [] []
                        \<lparr>reg := (\<lambda>_. 0)(R_COND := FL_ZRO, R_PC := 0x3001)\<rparr>) = Inr t \<and>
      reg s2 2 = reg t 2 \<and> reg s2 R_COND = reg t R_COND) \<and>
   reg (ldInstr 0x2401 (init_machine ((\<lambda>_. 0)(0x3002 := 0xFFFE)) [] [] []
                        \<lparr>reg := (\<lambda>_. 0)(R_COND := FL_ZRO, R_PC := 0x3001)\<rparr>)) 2 = 0xFFFE \<and>
   reg (ldInstr 0x2401 (init_machine ((\<lambda>_. 0)(0x3002 := 0xFFFE)) [] [] []
                        \<lparr>reg := (\<lambda>_. 0)(R_COND := FL_ZRO, R_PC := 0x3001)\<rparr>)) R_COND = FL_NEG"
proof -
  let ?s = "init_machine ((\<lambda>_. 0)(0x3002 := 0xFFFE)) [] [] []"
  have ops: "drop_bit 12 (0xE201 :: word16) = OP_LEA" "drop_bit 12 (0x6440 :: word16) = OP_LDR"
    "drop_bit 12 (0x2401 :: word16) = OP_LD"
    by (simp_all add: op_names)
  have fields: "drop_bit 6 (0x6440 :: word16) AND 0x7 = drop_bit 9 (0xE201 :: word16) AND 0x7"
    "(0x6440 :: word16) AND 0x3F = 0"
    "drop_bit 9 (0x2401 :: word16) AND 0x7 = drop_bit 9 (0x6440 :: word16) AND 0x7"
    "(0x2401 :: word16) AND 0x1FF = 0xE201 AND 0x1FF"
    by simp_all
  have ld: "reg (ldInstr 0x2401 (?s\<lparr>reg := (\<lambda>_. 0)(R_COND := FL_ZRO, R_PC := 0x3001)\<rparr>)) 2 = 0xFFFE"
    "reg (ldInstr 0x2401 (?s\<lparr>reg := (\<lambda>_. 0)(R_COND := FL_ZRO, R_PC := 0x3001)\<rparr>)) R_COND = FL_NEG"
    by (simp_all add: ldInstr_def mem_read_def update_flags_def sign_extend_def init_machine_def
        reg_names MR_KBSR_def Let_def)
  have "reg ?s R_PC + 1 = 0x3001" "reg ?s = (\<lambda>_. 0)(R_COND := FL_ZRO, R_PC := 0x3000)"
    by (simp_all add: init_machine_def PC_START_def)
  with lea_ldr_equals_ld [OF ops fields, of ?s] ops ld show ?thesis
    by simp
qed

section \<open>Image loader\<close>

lemma swap16_host_word: "swap16 (host_word b0 b1) = push_bit 8 (ucast b0) OR ucast b1"
  unfolding swap16_def host_word_def
  by (rule bit_word_eqI) (auto simp add: bit_simps dest: bit_imp_le_length)

lemma of_nat_word16_inj:
  "p < 65536 \<Longrightarrow> k < 65536 \<Longrightarrow> (of_nat p = (of_nat k :: word16)) = (p = k)"
  by (simp add: word_of_nat_eq_iff take_bit_nat_eq_self)

lemma length_host_words: "length (host_words bytes) = length bytes div 2"
  by (induction bytes rule: host_words.induct) simp_all

lemma host_words_take: "host_words (take (2 * n) bytes) = take n (host_words bytes)"
proof (induction n arbitrary: bytes)
  case 0
  show ?case by simp
next
  case (Suc n)
  show ?case
  proof (cases bytes)
    case Nil
    then show ?thesis by simp
  next
    case outer: (Cons lo rest)
    show ?thesis
    proof (cases rest)
      case Nil
      with outer show ?thesis by simp
    next
      case (Cons hi rest')
      with outer Suc.IH [of rest'] show ?thesis by simp
    qed
  qed
qed

lemma store_bytes_get:
  "even (length bs) \<Longrightarrow> p + length bs div 2 \<le> 65536 \<Longrightarrow> k < 65536 \<Longrightarrow>
   store_bytes p bs m (of_nat k) =
     (if p \<le> k \<and> k < p + length bs div 2 then host_words bs ! (k - p) else m (of_nat k))"
proof (induction p bs m rule: store_bytes.induct)
  case (1 p lo hi rest m)
  have "store_bytes (p + 1) rest (m(of_nat p := host_word lo hi)) (of_nat k) =
      (if p + 1 \<le> k \<and> k < p + 1 + length rest div 2 then host_words rest ! (k - (p + 1))
       else (m(of_nat p := host_word lo hi)) (of_nat k))"
    using "1.prems" by (intro "1.IH") auto
  moreover have "p < 65536" using "1.prems" by simp
  ultimately show ?case
    using "1.prems"(3) by (auto simp add: of_nat_word16_inj nth_Cons')
next
  case (2 p lo m)
  then show ?case by simp
next
  case (3 p m)
  then show ?case by auto
qed

lemma swap_loop_get:
  "p + n \<le> 65536 \<Longrightarrow> k < 65536 \<Longrightarrow>
   swap_loop n p m (of_nat k) =
     (if p \<le> k \<and> k < p + n then swap16 (m (of_nat k)) else m (of_nat k))"
proof (induction n arbitrary: p m)
  case 0
  then show ?case by auto
next
  case (Suc n)
  have "swap_loop n (p + 1) (m(of_nat p := swap16 (m (of_nat p)))) (of_nat k) =
      (if p + 1 \<le> k \<and> k < p + 1 + n
       then swap16 ((m(of_nat p := swap16 (m (of_nat p)))) (of_nat k))
       else (m(of_nat p := swap16 (m (of_nat p)))) (of_nat k))"
    using Suc.prems by (intro Suc.IH) auto
  moreover have "p < 65536" using Suc.prems by simp
  ultimately show ?case
    using Suc.prems(2) by (auto simp add: of_nat_word16_inj)
qed

lemma max_read_nonzero: "origin \<noteq> 0 \<Longrightarrow> unat (max_read origin) = 65536 - unat origin"
proof -
  assume "origin \<noteq> 0"
  then have "0 < unat origin" by (simp add: unat_gt_0)
  moreover have "unat origin < 65536" using unsigned_less [of origin] by simp
  ultimately have "(65536 - unat origin) mod 65536 = 65536 - unat origin" by simp
  then show ?thesis
    unfolding max_read_def MEMORY_MAX_def unat_of_nat by simp
qed

lemma max_read_zero: "max_read 0 = 0"
  by (simp add: max_read_def MEMORY_MAX_def)

text \<open>
  For every origin other than 0 the loader does what the image format asks: it reads
  \<open>min (payload words) (0x10000 - origin)\<close> words and, for a payload of whole words,
  stores their big-endian readings from \<^verbatim>\<open>memory[origin]\<close> on and leaves every other cell
  alone.
\<close>

lemma read_image_file_nonzero_origin:
  assumes "swap16 (host_word b0 b1) = origin" and "origin \<noteq> 0"
  shows "image_read (b0 # b1 # payload) = min (length payload div 2) (0x10000 - unat origin)"
    and "even (length payload) \<Longrightarrow> k < 65536 \<Longrightarrow>
         memory (read_image_file (b0 # b1 # payload) s) (of_nat k) =
           (if unat origin \<le> k \<and> k < unat origin + image_read (b0 # b1 # payload)
            then swap16 (host_words payload ! (k - unat origin))
            else memory s (of_nat k))"
proof -
  let ?n = "min (length payload div 2) (65536 - unat origin)"
  let ?bytes = "fread_bytes (unat (max_read origin)) payload"
  have items: "host_words ?bytes = take (65536 - unat origin) (host_words payload)"
    using assms(2) by (simp add: fread_bytes_def max_read_nonzero host_words_take)
  have len: "length (host_words ?bytes) = ?n"
    by (simp add: items length_host_words)
  show cnt: "image_read (b0 # b1 # payload) = min (length payload div 2) (0x10000 - unat origin)"
    using len by (simp add: image_read_def assms(1))
  assume ev: "even (length payload)" and k: "k < 65536"
  have evb: "even (length ?bytes)"
    using ev by (auto simp add: fread_bytes_def min_def)
  have lenb: "length ?bytes div 2 = ?n"
    using len by (simp add: length_host_words)
  have ub: "unat origin < 65536" using unsigned_less [of origin] by simp
  have fit: "unat origin + ?n \<le> 65536" using ub by simp
  let ?m = "swap_loop ?n (unat origin) (store_bytes (unat origin) ?bytes (memory s))"
  have mem: "memory (read_image_file (b0 # b1 # payload) s) = ?m"
    by (simp add: read_image_file_def assms(1) Let_def len)
  have mk: "?m (of_nat k) =
      (if unat origin \<le> k \<and> k < unat origin + ?n
       then swap16 (host_words ?bytes ! (k - unat origin)) else memory s (of_nat k))"
    using k fit evb by (simp add: swap_loop_get store_bytes_get lenb)
  show "memory (read_image_file (b0 # b1 # payload) s) (of_nat k) =
           (if unat origin \<le> k \<and> k < unat origin + image_read (b0 # b1 # payload)
            then swap16 (host_words payload ! (k - unat origin))
            else memory s (of_nat k))"
  proof (cases "unat origin \<le> k \<and> k < unat origin + ?n")
    case True
    then have "k - unat origin < 65536 - unat origin" by arith
    then have "host_words ?bytes ! (k - unat origin) = host_words payload ! (k - unat origin)"
      by (simp add: items)
    with True show ?thesis unfolding mem mk cnt by simp
  next
    case False
    then show ?thesis unfolding mem mk cnt by auto
  qed
qed

text \<open>
  A last single byte of the payload goes into the low byte of the cell after the loaded
  words, and a file too short to hold an origin changes nothing.
\<close>

lemma read_image_file_odd_byte:
  "memory (read_image_file [0x30, 0x00, 0x12, 0x34, 0x56]
             (init_machine (\<lambda>_. 0xAAAA) [] [] [])) 0x3000 = 0x1234 \<and>
   memory (read_image_file [0x30, 0x00, 0x12, 0x34, 0x56]
             (init_machine (\<lambda>_. 0xAAAA) [] [] [])) 0x3001 = 0xAA56 \<and>
   image_read [0x30, 0x00, 0x12, 0x34, 0x56] = 1"
  by (simp add: read_image_file_def image_read_def fread_bytes_def max_read_def MEMORY_MAX_def
      host_word_def swap16_def init_machine_def Let_def)

lemma read_image_file_short: "read_image_file [] s = s \<and> read_image_file [b] s = s"
  by (simp add: read_image_file_def)

text \<open>With origin 0 the 16-bit \<^verbatim>\<open>max_read\<close> is 0 and no word is read, whatever the payload.\<close>

lemma origin_zero_loads_nothing:
  "read_image_file (0 # 0 # payload) s = s \<and> image_read (0 # 0 # payload) = 0"
  by (simp add: read_image_file_def image_read_def fread_bytes_def max_read_zero
      host_word_def swap16_def)

text \<open>
  Claim C3 says that for every origin the number of words loaded is
  \<open>min (payload length) (0x10000 - origin)\<close>. The code misses the origin 0:
  \<^verbatim>\<open>MEMORY_MAX - origin\<close> is then \<^verbatim>\<open>0x10000\<close>, which the \<^verbatim>\<open>uint16_t max_read\<close> holds as 0.
  For the image \<^verbatim>\<open>00 00 12 34\<close> (origin 0, one payload word) the claim gives one word
  loaded; the loader reads none and leaves the memory as it was.
\<close>

theorem image_at_origin_zero_not_loaded:
  "read_image_file [0x00, 0x00, 0x12, 0x34] (init_machine (\<lambda>_. 0) [] [] []) =
     init_machine (\<lambda>_. 0) [] [] [] \<and>
   image_read [0x00, 0x00, 0x12, 0x34] = 0 \<and>
   min (length (host_words [0x12, 0x34])) (0x10000 - unat (swap16 (host_word 0x00 0x00))) = 1"
  by (simp add: read_image_file_def image_read_def fread_bytes_def max_read_def MEMORY_MAX_def
      host_word_def swap16_def init_machine_def)

end
